theory Spec2Isabelle
  imports Main "HOL-Library.AList"
begin

section \<open>The inventory service of \<open>index.js\<close>\<close>

text \<open>
  The service keeps two globals, \<open>inventoryItems\<close> (an object used as a dictionary) and
  \<open>nextId\<close>, and a directory \<open>cache\<close> of uploaded photo files. Every route handler is
  modelled as a function from the state before the request to the state after it, the
  HTTP response, and the lines written by \<open>console.error\<close>.

  Modelling conventions.
  \<^item> A JavaScript number that is used as an id is \<open>NaN\<close> or an integer; \<open>parseInt\<close> is a
    built-in, and its result is the input of the handlers. Integers are exact (the
    counter stays far below \<open>2^53\<close> in any run that can be carried out).
  \<^item> Form fields and JSON fields are absent (\<open>None\<close>) or strings.
  \<^item> The dictionary is an association list in the order \<open>Object.values\<close> enumerates it:
    an assignment to a new key appends, an assignment to an old key replaces in place.
  \<^item> The directory is a map from file names to file contents. \<open>fs.unlink\<close> rejects when
    the file is missing, and may reject for a reason of the file system's own; that
    second case is an input of the request (\<open>unlink_fails\<close>). \<open>res.sendFile\<close> fails
    when the file is missing.
  \<^item> Requests are served one after the other. The unlink that \<open>POST /register\<close> starts
    without awaiting it is taken to be finished when the next request is served.
  \<^item> The texts of the messages are abstracted to constructors.
\<close>

subsection \<open>Data\<close>

datatype jsnum = NaN | Num int

type_synonym bytes = "nat list"

datatype json = JNull | JNum int | JStr string | JObj "(string \<times> json) list"

record item =
  ID :: int
  InventoryName :: string
  Description :: string
  Photo :: "string option"

record state =
  inventoryItems :: "(jsnum \<times> item) list"
  nextId :: int
  cache :: "string \<rightharpoonup> bytes"

text \<open>The file part of a multipart request, with the clock value \<open>Date.now()\<close> read
  while the part is stored.\<close>

record upload =
  now :: int
  originalname :: string
  content :: bytes

datatype fs_error = ENOENT | EPERM

datatype message =
    NameRequired
  | ItemNotFound jsnum
  | SearchNotFound
  | PhotoNotFound jsnum
  | FileNotProvided
  | ServerError
  | Registered
  | Deleted int
  | PhotoUpdated int

datatype body =
    Error message
  | Msg message
  | View json
  | MsgView message json
  | Views "json list"
  | SentFile string bytes

record response =
  status :: nat
  body :: body

record result =
  st :: state
  resp :: response
  logged :: "fs_error list"

datatype request =
    PostRegister "string option" "string option" "upload option" bool
  | GetInventory
  | GetItem jsnum
  | PutItem jsnum "string option" "string option"
  | DeleteItem jsnum bool
  | GetPhoto jsnum
  | PutPhoto jsnum "upload option" bool
  | PostSearch jsnum "string option"

subsection \<open>Strings\<close>

text \<open>Decimal rendering of a number inside a template literal.\<close>

function digits :: "int \<Rightarrow> string" where
  "digits n =
     (if n < 10 then [''0123456789'' ! nat n]
      else digits (n div 10) @ [''0123456789'' ! nat (n mod 10)])"
  by pat_completeness auto
termination
  by (relation "measure nat") auto

declare digits.simps [simp del]

definition show_int :: "int \<Rightarrow> string" where
  "show_int i = (if i < 0 then CHR ''-'' # digits (- i) else digits i)"

text \<open>The class \<open>\s\<close> of the regular expression, on the one-byte characters in which the
  upload middleware hands over \<open>originalname\<close>: tab, line feed, vertical tab, form feed,
  carriage return, space and no-break space.\<close>

definition is_space :: "char \<Rightarrow> bool" where
  "is_space c \<longleftrightarrow> c \<in> set [CHR 0x09, CHR 0x0A, CHR 0x0B, CHR 0x0C, CHR 0x0D, CHR 0x20, CHR 0xA0]"

text \<open>\<open>`${Date.now()}-${file.originalname.replace(/\s/g, '_')}`\<close>\<close>

definition filename :: "upload \<Rightarrow> string" where
  "filename file =
     show_int (now file) @ ''-'' @ map (\<lambda>c. if is_space c then CHR ''_'' else c) (originalname file)"

text \<open>Truthiness of a value that is \<open>undefined\<close>/\<open>null\<close> or a string.\<close>

definition truthy :: "string option \<Rightarrow> bool" where
  "truthy v = (case v of None \<Rightarrow> False | Some s \<Rightarrow> s \<noteq> [])"

definition photo_path :: "int \<Rightarrow> string" where
  "photo_path i = ''/inventory/'' @ show_int i @ ''/photo''"

subsection \<open>The file system and the upload middleware\<close>

text \<open>\<open>upload.single('photo')\<close> runs before the handler of the route: a file part is
  written to the directory under its generated name (an existing file of that name is
  overwritten) and \<open>req.file.filename\<close> is that name; without a file part \<open>req.file\<close>
  is undefined.\<close>

definition upload_single :: "state \<Rightarrow> upload option \<Rightarrow> state \<times> string option" where
  "upload_single s part =
     (case part of
        None \<Rightarrow> (s, None)
      | Some file \<Rightarrow> (s\<lparr>cache := (cache s)(filename file \<mapsto> content file)\<rparr>, Some (filename file)))"

text \<open>\<open>fs.unlink(path.join(cache, name)).catch(console.error)\<close>: the file is removed, or
  the rejection is logged and nothing else happens.\<close>

definition unlink :: "bool \<Rightarrow> state \<Rightarrow> string \<Rightarrow> state \<times> fs_error list" where
  "unlink unlink_fails s name =
     (if cache s name = None then (s, [ENOENT])
      else if unlink_fails then (s, [EPERM])
      else (s\<lparr>cache := (cache s)(name := None)\<rparr>, []))"

subsection \<open>Helpers\<close>

definition prepareItemResponse :: "item \<Rightarrow> json" where
  "prepareItemResponse it =
     JObj [(''ID'', JNum (ID it)),
           (''InventoryName'', JStr (InventoryName it)),
           (''Description'', JStr (Description it)),
           (''PhotoLink'', if truthy (Photo it) then JStr (photo_path (ID it)) else JNull)]"

definition findItem :: "state \<Rightarrow> jsnum \<Rightarrow> response + item" where
  "findItem s i =
     (case map_of (inventoryItems s) i of
        None \<Rightarrow> Inl \<lparr>status = 404, body = Error (ItemNotFound i)\<rparr>
      | Some it \<Rightarrow> Inr it)"

subsection \<open>Route handlers\<close>

text \<open>\<open>POST /register\<close>, after the middleware.\<close>

definition register ::
  "state \<Rightarrow> string option \<Rightarrow> string option \<Rightarrow> string option \<Rightarrow> bool \<Rightarrow> result" where
  "register s inventory_name description photoFilename unlink_fails =
     (case (if truthy inventory_name then inventory_name else None) of
        None \<Rightarrow>
          (case (if truthy photoFilename then photoFilename else None) of
             None \<Rightarrow> \<lparr>st = s, resp = \<lparr>status = 400, body = Error NameRequired\<rparr>, logged = []\<rparr>
           | Some name \<Rightarrow>
               (let (s', lg) = unlink unlink_fails s name
                in \<lparr>st = s', resp = \<lparr>status = 400, body = Error NameRequired\<rparr>, logged = lg\<rparr>))
      | Some name \<Rightarrow>
          (let newId = nextId s;
               it = \<lparr>ID = newId, InventoryName = name,
                     Description = (case (if truthy description then description else None) of
                                      None \<Rightarrow> [] | Some d \<Rightarrow> d),
                     Photo = photoFilename\<rparr>;
               s' = s\<lparr>nextId := newId + 1,
                      inventoryItems := AList.update (Num newId) it (inventoryItems s)\<rparr>
           in \<lparr>st = s',
               resp = \<lparr>status = 201, body = MsgView Registered (prepareItemResponse it)\<rparr>,
               logged = []\<rparr>))"

text \<open>\<open>GET /inventory\<close>\<close>

definition list_items :: "state \<Rightarrow> result" where
  "list_items s =
     \<lparr>st = s,
      resp = \<lparr>status = 200, body = Views (map prepareItemResponse (map snd (inventoryItems s)))\<rparr>,
      logged = []\<rparr>"

text \<open>\<open>GET /inventory/:id\<close>\<close>

definition get_item :: "state \<Rightarrow> jsnum \<Rightarrow> result" where
  "get_item s i =
     (case findItem s i of
        Inl r \<Rightarrow> \<lparr>st = s, resp = r, logged = []\<rparr>
      | Inr it \<Rightarrow> \<lparr>st = s, resp = \<lparr>status = 200, body = View (prepareItemResponse it)\<rparr>, logged = []\<rparr>)"

text \<open>\<open>PUT /inventory/:id\<close>: the object found under the key is assigned to in place.\<close>

definition update_item :: "state \<Rightarrow> jsnum \<Rightarrow> string option \<Rightarrow> string option \<Rightarrow> result" where
  "update_item s i name description =
     (case findItem s i of
        Inl r \<Rightarrow> \<lparr>st = s, resp = r, logged = []\<rparr>
      | Inr it \<Rightarrow>
          (let it1 = (case name of None \<Rightarrow> it | Some n \<Rightarrow> it\<lparr>InventoryName := n\<rparr>);
               it2 = (case description of None \<Rightarrow> it1 | Some d \<Rightarrow> it1\<lparr>Description := d\<rparr>)
           in \<lparr>st = s\<lparr>inventoryItems := AList.update i it2 (inventoryItems s)\<rparr>,
               resp = \<lparr>status = 200, body = View (prepareItemResponse it2)\<rparr>,
               logged = []\<rparr>))"

text \<open>\<open>DELETE /inventory/:id\<close>: the key removed is the \<open>ID\<close> field of the object found.\<close>

definition delete_item :: "state \<Rightarrow> jsnum \<Rightarrow> bool \<Rightarrow> result" where
  "delete_item s i unlink_fails =
     (case findItem s i of
        Inl r \<Rightarrow> \<lparr>st = s, resp = r, logged = []\<rparr>
      | Inr it \<Rightarrow>
          (let (s1, lg) = (case (if truthy (Photo it) then Photo it else None) of
                             None \<Rightarrow> (s, [])
                           | Some name \<Rightarrow> unlink unlink_fails s name)
           in \<lparr>st = s1\<lparr>inventoryItems := AList.delete (Num (ID it)) (inventoryItems s1)\<rparr>,
               resp = \<lparr>status = 200, body = Msg (Deleted (ID it))\<rparr>,
               logged = lg\<rparr>))"

text \<open>\<open>GET /inventory/:id/photo\<close>: \<open>res.sendFile\<close> sends the file under the header set
  before it, or calls back with an error that is logged and answered with 500.\<close>

definition get_photo :: "state \<Rightarrow> jsnum \<Rightarrow> result" where
  "get_photo s i =
     (case map_of (inventoryItems s) i of
        None \<Rightarrow> \<lparr>st = s, resp = \<lparr>status = 404, body = Error (PhotoNotFound i)\<rparr>, logged = []\<rparr>
      | Some it \<Rightarrow>
          (case (if truthy (Photo it) then Photo it else None) of
             None \<Rightarrow> \<lparr>st = s, resp = \<lparr>status = 404, body = Error (PhotoNotFound i)\<rparr>, logged = []\<rparr>
           | Some name \<Rightarrow>
               (case cache s name of
                  Some bs \<Rightarrow>
                    \<lparr>st = s, resp = \<lparr>status = 200, body = SentFile ''image/jpeg'' bs\<rparr>, logged = []\<rparr>
                | None \<Rightarrow>
                    \<lparr>st = s, resp = \<lparr>status = 500, body = Error ServerError\<rparr>, logged = [ENOENT]\<rparr>)))"

text \<open>\<open>PUT /inventory/:id/photo\<close>, after the middleware.\<close>

definition replace_photo :: "state \<Rightarrow> jsnum \<Rightarrow> string option \<Rightarrow> bool \<Rightarrow> result" where
  "replace_photo s i file unlink_fails =
     (case findItem s i of
        Inl r \<Rightarrow> \<lparr>st = s, resp = r, logged = []\<rparr>
      | Inr it \<Rightarrow>
          (case file of
             None \<Rightarrow> \<lparr>st = s, resp = \<lparr>status = 400, body = Error FileNotProvided\<rparr>, logged = []\<rparr>
           | Some new_name \<Rightarrow>
               (let (s1, lg) = (case (if truthy (Photo it) then Photo it else None) of
                                  None \<Rightarrow> (s, [])
                                | Some name \<Rightarrow> unlink unlink_fails s name);
                    it' = it\<lparr>Photo := Some new_name\<rparr>
                in \<lparr>st = s1\<lparr>inventoryItems := AList.update i it' (inventoryItems s1)\<rparr>,
                    resp = \<lparr>status = 200, body = MsgView (PhotoUpdated (ID it')) (prepareItemResponse it')\<rparr>,
                    logged = lg\<rparr>)))"

text \<open>\<open>POST /search\<close>: the field \<open>PhotoLink\<close> is added to the object only under the
  condition; otherwise the object has no such field.\<close>

definition search :: "state \<Rightarrow> jsnum \<Rightarrow> string option \<Rightarrow> result" where
  "search s itemId has_photo =
     (case map_of (inventoryItems s) itemId of
        None \<Rightarrow> \<lparr>st = s, resp = \<lparr>status = 404, body = Error SearchNotFound\<rparr>, logged = []\<rparr>
      | Some it \<Rightarrow>
          (let responseItem = [(''ID'', JNum (ID it)),
                               (''InventoryName'', JStr (InventoryName it)),
                               (''Description'', JStr (Description it))];
               responseItem' = (if has_photo = Some ''on'' \<and> truthy (Photo it)
                                then responseItem @ [(''PhotoLink'', JStr (photo_path (ID it)))]
                                else responseItem)
           in \<lparr>st = s, resp = \<lparr>status = 200, body = View (JObj responseItem')\<rparr>, logged = []\<rparr>))"

subsection \<open>The server\<close>

text \<open>One request: the middleware of the route, then its handler.\<close>

fun handle :: "state \<Rightarrow> request \<Rightarrow> result" where
  "handle s (PostRegister inventory_name description part unlink_fails) =
     (let (s', file) = upload_single s part
      in register s' inventory_name description file unlink_fails)"
| "handle s GetInventory = list_items s"
| "handle s (GetItem i) = get_item s i"
| "handle s (PutItem i name description) = update_item s i name description"
| "handle s (DeleteItem i unlink_fails) = delete_item s i unlink_fails"
| "handle s (GetPhoto i) = get_photo s i"
| "handle s (PutPhoto i part unlink_fails) =
     (let (s', file) = upload_single s part
      in replace_photo s' i file unlink_fails)"
| "handle s (PostSearch i has_photo) = search s i has_photo"

text \<open>The state at start-up: no items, counter 1, and the directory as it was found.\<close>

definition init :: "(string \<rightharpoonup> bytes) \<Rightarrow> state" where
  "init dir = \<lparr>inventoryItems = [], nextId = 1, cache = dir\<rparr>"

text \<open>The results of a sequence of requests served one after the other.\<close>

fun trace :: "state \<Rightarrow> request list \<Rightarrow> result list" where
  "trace s [] = []"
| "trace s (r # rs) = handle s r # trace (st (handle s r)) rs"

text \<open>The state after a sequence of requests.\<close>

fun run :: "state \<Rightarrow> request list \<Rightarrow> state" where
  "run s [] = s"
| "run s (r # rs) = run (st (handle s r)) rs"

text \<open>The id a response reports as newly assigned: the \<open>ID\<close> of the item in a 201.\<close>

definition new_id :: "response \<Rightarrow> int option" where
  "new_id r =
     (if status r = 201 then
        (case body r of
           MsgView m (JObj fs) \<Rightarrow>
             (case map_of fs ''ID'' of Some (JNum i) \<Rightarrow> Some i | _ \<Rightarrow> None)
         | _ \<Rightarrow> None)
      else None)"

definition assigned_ids :: "state \<Rightarrow> request list \<Rightarrow> int list" where
  "assigned_ids s rs = List.map_filter (\<lambda>r. new_id (resp r)) (trace s rs)"

text \<open>The names of the fields of a JSON object.\<close>

definition fields_of :: "json \<Rightarrow> string list" where
  "fields_of j = (case j of JObj fs \<Rightarrow> map fst fs | _ \<Rightarrow> [])"

definition field :: "json \<Rightarrow> string \<Rightarrow> json option" where
  "field j k = (case j of JObj fs \<Rightarrow> map_of fs k | _ \<Rightarrow> None)"

text \<open>The ids of the item views in the response to \<open>GET /inventory\<close>.\<close>

definition listed_ids :: "response \<Rightarrow> int list" where
  "listed_ids r =
     (case body r of
        Views vs \<Rightarrow>
          List.map_filter (\<lambda>v. case field v ''ID'' of Some (JNum i) \<Rightarrow> Some i | _ \<Rightarrow> None) vs
      | _ \<Rightarrow> [])"

text \<open>What holds of every state the server reaches: the counter is positive, each item
  is stored under its own positive id below the counter, and a stored photo name is not
  the empty string.\<close>

definition item_ok :: "int \<Rightarrow> jsnum \<times> item \<Rightarrow> bool" where
  "item_ok n e \<longleftrightarrow>
     fst e = Num (ID (snd e)) \<and> 0 < ID (snd e) \<and> ID (snd e) < n \<and> Photo (snd e) \<noteq> Some []"

definition inv :: "state \<Rightarrow> bool" where
  "inv s \<longleftrightarrow> 0 < nextId s \<and> list_all (item_ok (nextId s)) (inventoryItems s)"

subsection \<open>Sample data\<close>

text \<open>An empty directory, two uploads that carry the same clock value and the same
  original name, and a third one stored a millisecond later.\<close>

definition no_files :: "string \<rightharpoonup> bytes" where
  "no_files = Map.empty"

definition photo_a :: upload where
  "photo_a = \<lparr>now = 5, originalname = ''a.jpg'', content = [1]\<rparr>"

definition photo_a' :: upload where
  "photo_a' = \<lparr>now = 5, originalname = ''a.jpg'', content = [2]\<rparr>"

definition photo_b :: upload where
  "photo_b = \<lparr>now = 6, originalname = ''my cat.jpg'', content = [3]\<rparr>"


section \<open>Properties of the model\<close>

subsection \<open>Strings\<close>

lemma digits_nonempty: "digits n \<noteq> []"
  by (subst digits.simps) simp

lemma show_int_nonempty: "show_int i \<noteq> []"
  by (simp add: show_int_def digits_nonempty)

lemma filename_nonempty: "filename file \<noteq> []"
  by (simp add: filename_def)

lemma truthy_filename: "truthy (Some (filename file))"
  by (simp add: truthy_def filename_nonempty)

lemma digits_hd: "hd (digits n) \<in> set ''0123456789''"
proof (induction n rule: digits.induct)
  case (1 n)
  show ?case
  proof (cases "n < 10")
    case True
    then have "nat n < length ''0123456789''" by simp
    then have "''0123456789'' ! nat n \<in> set ''0123456789''" by (rule nth_mem)
    with True show ?thesis by (subst digits.simps) simp
  next
    case False
    with 1 have "hd (digits (n div 10)) \<in> set ''0123456789''" by simp
    with False show ?thesis
      by (subst digits.simps) (simp add: digits_nonempty)
  qed
qed

lemma show_int_hd: "hd (show_int i) \<noteq> CHR ''/''"
  using digits_hd [of i] digits_hd [of "- i"] by (auto simp: show_int_def)

lemma photo_path_not_filename: "photo_path i \<noteq> filename upl"
proof
  assume "photo_path i = filename upl"
  then have "hd (photo_path i) = hd (filename upl)" by simp
  then show False
    using show_int_hd [of "now upl"]
    by (simp add: photo_path_def filename_def show_int_nonempty)
qed

subsection \<open>Association lists\<close>

lemma list_all_update:
  "list_all P al \<Longrightarrow> P (k, v) \<Longrightarrow> list_all P (AList.update k v al)"
  by (induction al) auto

lemma list_all_delete: "list_all P al \<Longrightarrow> list_all P (AList.delete k al)"
  by (simp add: AList.delete_eq list_all_iff)

lemma list_all_map_of:
  "list_all P al \<Longrightarrow> map_of al k = Some v \<Longrightarrow> P (k, v)"
  by (auto simp: list_all_iff dest: map_of_SomeD)

lemma update_absent: "map_of al k = None \<Longrightarrow> AList.update k v al = al @ [(k, v)]"
  by (induction al) (auto split: if_splits)

lemma update_keys_present:
  "map_of al k = Some v \<Longrightarrow> map fst (AList.update k v' al) = map fst al"
  by (auto simp: update_keys dest: map_of_SomeD intro: rev_image_eqI)

subsection \<open>The invariant of the reachable states\<close>

lemma item_ok_mono: "item_ok n e \<Longrightarrow> n \<le> m \<Longrightarrow> item_ok m e"
  by (auto simp: item_ok_def)

lemma list_all_item_ok_mono:
  "list_all (item_ok n) al \<Longrightarrow> n \<le> m \<Longrightarrow> list_all (item_ok m) al"
  by (auto simp: list_all_iff intro: item_ok_mono)

lemma inv_lookup:
  "inv s \<Longrightarrow> map_of (inventoryItems s) i = Some it \<Longrightarrow>
     i = Num (ID it) \<and> 0 < ID it \<and> ID it < nextId s \<and> Photo it \<noteq> Some []"
  using list_all_map_of [of "item_ok (nextId s)" "inventoryItems s" i it]
  by (simp add: inv_def item_ok_def)

lemma inv_entry:
  "inv s \<Longrightarrow> e \<in> set (inventoryItems s) \<Longrightarrow> fst e = Num (ID (snd e))"
  by (auto simp: inv_def list_all_iff item_ok_def)

lemma inv_fresh: "inv s \<Longrightarrow> nextId s \<le> n \<Longrightarrow> map_of (inventoryItems s) (Num n) = None"
  using inv_lookup [of s "Num n"] by (cases "map_of (inventoryItems s) (Num n)") auto

lemma inv_NaN: "inv s \<Longrightarrow> map_of (inventoryItems s) NaN = None"
  using inv_lookup [of s NaN] by (cases "map_of (inventoryItems s) NaN") auto

lemma inv_cache [simp]: "inv (s\<lparr>cache := c\<rparr>) = inv s"
  by (simp add: inv_def)

lemma unlink_frame:
  "inventoryItems (fst (unlink b s name)) = inventoryItems s \<and>
   nextId (fst (unlink b s name)) = nextId s"
  by (simp add: unlink_def)

lemma inv_unlink: "inv s \<Longrightarrow> inv (fst (unlink b s name))"
  by (simp add: unlink_def)

lemma upload_single_frame:
  "inventoryItems (fst (upload_single s part)) = inventoryItems s \<and>
   nextId (fst (upload_single s part)) = nextId s"
  by (simp add: upload_single_def split: option.splits)

lemma inv_upload_single: "inv s \<Longrightarrow> inv (fst (upload_single s part))"
  by (simp add: upload_single_def split: option.splits)

lemma upload_single_file:
  "snd (upload_single s part) = map_option filename part"
  by (simp add: upload_single_def split: option.splits)

lemma inv_register:
  assumes "inv s" and "file \<noteq> Some []"
  shows "inv (st (register s inventory_name description file unlink_fails))"
proof (cases "truthy inventory_name")
  case False
  then show ?thesis using assms(1)
    by (auto simp: register_def unlink_def split: option.splits)
next
  case True
  then obtain name where n: "inventory_name = Some name"
    by (cases inventory_name) (auto simp: truthy_def)
  define it where "it = \<lparr>ID = nextId s, InventoryName = name,
      Description = (case (if truthy description then description else None) of
                       None \<Rightarrow> [] | Some d \<Rightarrow> d), Photo = file\<rparr>"
  have pos: "0 < nextId s" using assms(1) by (simp add: inv_def)
  have "list_all (item_ok (nextId s + 1)) (inventoryItems s)"
    using assms(1) by (auto simp: inv_def intro: list_all_item_ok_mono)
  moreover have "item_ok (nextId s + 1) (Num (nextId s), it)"
    using pos assms(2) by (simp add: item_ok_def it_def)
  ultimately have "list_all (item_ok (nextId s + 1)) (AList.update (Num (nextId s)) it (inventoryItems s))"
    by (rule list_all_update)
  then show ?thesis
    using True n pos by (simp add: register_def inv_def Let_def it_def)
qed

lemma inv_update_item: "inv s \<Longrightarrow> inv (st (update_item s i name description))"
proof (cases "map_of (inventoryItems s) i")
  case None
  assume "inv s"
  with None show ?thesis by (simp add: update_item_def findItem_def)
next
  case (Some it)
  assume a: "inv s"
  define it2 where "it2 = (case description of None \<Rightarrow> (case name of None \<Rightarrow> it | Some n \<Rightarrow> it\<lparr>InventoryName := n\<rparr>)
     | Some d \<Rightarrow> (case name of None \<Rightarrow> it | Some n \<Rightarrow> it\<lparr>InventoryName := n\<rparr>)\<lparr>Description := d\<rparr>)"
  have same: "ID it2 = ID it \<and> Photo it2 = Photo it"
    by (simp add: it2_def split: option.splits)
  have "item_ok (nextId s) (i, it)"
    using a Some by (auto simp: inv_def intro: list_all_map_of)
  then have "item_ok (nextId s) (i, it2)"
    using same by (simp add: item_ok_def)
  then have "list_all (item_ok (nextId s)) (AList.update i it2 (inventoryItems s))"
    using a by (simp add: inv_def list_all_update)
  then show ?thesis
    using a Some by (simp add: update_item_def findItem_def inv_def Let_def it2_def)
qed

lemma inv_delete_item: "inv s \<Longrightarrow> inv (st (delete_item s i unlink_fails))"
  by (auto simp: delete_item_def findItem_def unlink_def inv_def list_all_delete
      split: option.splits)

lemma inv_replace_photo:
  assumes "inv s" and "file \<noteq> Some []"
  shows "inv (st (replace_photo s i file unlink_fails))"
proof (cases "map_of (inventoryItems s) i")
  case None
  with assms(1) show ?thesis by (simp add: replace_photo_def findItem_def)
next
  case (Some it)
  show ?thesis
  proof (cases "file")
    case None
    with Some assms(1) show ?thesis by (simp add: replace_photo_def findItem_def)
  next
    case (Some new_name)
    have "item_ok (nextId s) (i, it)"
      using assms(1) \<open>map_of (inventoryItems s) i = Some it\<close>
      by (auto simp: inv_def intro: list_all_map_of)
    then have "item_ok (nextId s) (i, it\<lparr>Photo := Some new_name\<rparr>)"
      using assms(2) Some by (simp add: item_ok_def)
    then have "list_all (item_ok (nextId s)) (AList.update i (it\<lparr>Photo := Some new_name\<rparr>) (inventoryItems s))"
      using assms(1) by (simp add: inv_def list_all_update)
    then show ?thesis
      using assms(1) Some \<open>map_of (inventoryItems s) i = Some it\<close>
      by (auto simp: replace_photo_def findItem_def unlink_def inv_def Let_def split: option.splits)
  qed
qed

lemma st_list_items [simp]: "st (list_items s) = s"
  by (simp add: list_items_def)

lemma st_get_item [simp]: "st (get_item s i) = s"
  by (simp add: get_item_def split: sum.splits)

lemma st_get_photo [simp]: "st (get_photo s i) = s"
  by (simp add: get_photo_def split: option.splits)

lemma st_search [simp]: "st (search s i has_photo) = s"
  by (simp add: search_def Let_def split: option.splits)

lemma inv_handle: "inv s \<Longrightarrow> inv (st (handle s r))"
proof (cases r)
  case (PostRegister inventory_name description part unlink_fails)
  assume "inv s"
  then have "inv (fst (upload_single s part))" by (rule inv_upload_single)
  moreover have "snd (upload_single s part) \<noteq> Some []"
    by (simp add: upload_single_file filename_nonempty)
  ultimately show ?thesis
    using PostRegister by (simp add: split_beta inv_register)
next
  case (PutPhoto i part unlink_fails)
  assume "inv s"
  then have "inv (fst (upload_single s part))" by (rule inv_upload_single)
  moreover have "snd (upload_single s part) \<noteq> Some []"
    by (simp add: upload_single_file filename_nonempty)
  ultimately show ?thesis
    using PutPhoto by (simp add: split_beta inv_replace_photo)
qed (simp_all add: inv_update_item inv_delete_item)

lemma inv_init: "inv (init dir)"
  by (simp add: inv_def init_def)

lemma inv_run: "inv s \<Longrightarrow> inv (run s rs)"
  by (induction rs arbitrary: s) (simp_all add: inv_handle)

lemma inv_reached: "inv (run (init dir) rs)"
  by (simp add: inv_run inv_init)

lemma reached_photo:
  assumes "map_of (inventoryItems (run (init dir) rs)) i = Some it"
  shows "truthy (Photo it) \<longleftrightarrow> Photo it \<noteq> None"
  using inv_lookup [OF inv_reached assms] by (cases "Photo it") (auto simp: truthy_def)

subsection \<open>The counter\<close>

lemma nextId_register:
  "nextId (st (register s inventory_name description file unlink_fails)) =
     (if truthy inventory_name then nextId s + 1 else nextId s)"
  by (auto simp: register_def unlink_def Let_def truthy_def split: option.splits)

lemma new_id_register:
  "new_id (resp (register s inventory_name description file unlink_fails)) =
     (if truthy inventory_name then Some (nextId s) else None)"
  by (auto simp: register_def unlink_def Let_def truthy_def new_id_def prepareItemResponse_def
      split: option.splits prod.splits)

lemma new_id_not_201: "status r \<noteq> 201 \<Longrightarrow> new_id r = None"
  by (simp add: new_id_def)

lemma status_list_items: "status (resp (list_items s)) = 200"
  by (simp add: list_items_def)

lemma status_get_item:
  "status (resp (get_item s i)) = (case map_of (inventoryItems s) i of None \<Rightarrow> 404 | Some it \<Rightarrow> 200)"
  by (simp add: get_item_def findItem_def split: option.splits)

lemma status_update_item:
  "status (resp (update_item s i name description)) =
     (case map_of (inventoryItems s) i of None \<Rightarrow> 404 | Some it \<Rightarrow> 200)"
  by (simp add: update_item_def findItem_def Let_def split: option.splits)

lemma status_delete_item:
  "status (resp (delete_item s i unlink_fails)) =
     (case map_of (inventoryItems s) i of None \<Rightarrow> 404 | Some it \<Rightarrow> 200)"
  by (simp add: delete_item_def findItem_def case_prod_beta split: option.splits)

lemma status_get_photo: "status (resp (get_photo s i)) \<in> {200, 404, 500}"
  by (simp add: get_photo_def split: option.splits)

lemma status_replace_photo:
  "status (resp (replace_photo s i file unlink_fails)) =
     (case map_of (inventoryItems s) i of
        None \<Rightarrow> 404
      | Some it \<Rightarrow> (case file of None \<Rightarrow> 400 | Some n \<Rightarrow> 200))"
  by (simp add: replace_photo_def findItem_def case_prod_beta Let_def split: option.splits)

lemma status_search:
  "status (resp (search s i has_photo)) =
     (case map_of (inventoryItems s) i of None \<Rightarrow> 404 | Some it \<Rightarrow> 200)"
  by (simp add: search_def Let_def split: option.splits)

lemma nextId_update_item: "nextId (st (update_item s i name description)) = nextId s"
  by (simp add: update_item_def findItem_def Let_def split: option.splits)

lemma nextId_delete_item: "nextId (st (delete_item s i unlink_fails)) = nextId s"
  by (simp add: delete_item_def findItem_def case_prod_beta unlink_frame split: option.splits)

lemma nextId_replace_photo: "nextId (st (replace_photo s i file unlink_fails)) = nextId s"
  by (simp add: replace_photo_def findItem_def case_prod_beta Let_def unlink_frame
      split: option.splits)

lemma new_id_handle_cases:
  "(new_id (resp (handle s r)) = None \<and> nextId (st (handle s r)) = nextId s) \<or>
   (new_id (resp (handle s r)) = Some (nextId s) \<and> nextId (st (handle s r)) = nextId s + 1)"
proof (cases r)
  case (PostRegister inventory_name description part unlink_fails)
  then show ?thesis
    by (simp add: split_beta nextId_register new_id_register upload_single_frame)
next
  case GetInventory
  then show ?thesis by (simp add: new_id_not_201 status_list_items)
next
  case (GetItem i)
  then show ?thesis by (simp add: new_id_not_201 status_get_item split: option.splits)
next
  case (PutItem i name description)
  then show ?thesis
    by (simp add: new_id_not_201 status_update_item nextId_update_item split: option.splits)
next
  case (DeleteItem i unlink_fails)
  then show ?thesis
    by (simp add: new_id_not_201 status_delete_item nextId_delete_item split: option.splits)
next
  case (GetPhoto i)
  have "status (resp (get_photo s i)) \<noteq> 201"
    using status_get_photo [of s i] by auto
  with GetPhoto show ?thesis by (simp add: new_id_not_201)
next
  case (PutPhoto i part unlink_fails)
  then show ?thesis
    by (simp add: split_beta new_id_not_201 status_replace_photo nextId_replace_photo
        upload_single_frame split: option.splits)
next
  case (PostSearch i has_photo)
  then show ?thesis by (simp add: new_id_not_201 status_search split: option.splits)
qed

lemma nextId_handle:
  "nextId (st (handle s r)) =
     (case new_id (resp (handle s r)) of None \<Rightarrow> nextId s | Some i \<Rightarrow> nextId s + 1)"
  using new_id_handle_cases [of s r] by auto

lemma new_id_handle: "new_id (resp (handle s r)) = Some i \<Longrightarrow> i = nextId s"
  using new_id_handle_cases [of s r] by auto

lemma nextId_handle_mono: "nextId s \<le> nextId (st (handle s r))"
  by (simp add: nextId_handle split: option.splits)

lemma assigned_ids_Nil [simp]: "assigned_ids s [] = []"
  by (simp add: assigned_ids_def map_filter_simps)

lemma assigned_ids_Cons:
  "assigned_ids s (r # rs) =
     (case new_id (resp (handle s r)) of
        None \<Rightarrow> assigned_ids (st (handle s r)) rs
      | Some i \<Rightarrow> i # assigned_ids (st (handle s r)) rs)"
  by (simp add: assigned_ids_def map_filter_simps split: option.splits)

lemma assigned_ids_lower: "i \<in> set (assigned_ids s rs) \<Longrightarrow> nextId s \<le> i"
proof (induction rs arbitrary: s)
  case Nil
  then show ?case by simp
next
  case (Cons r rs)
  have mono: "nextId s \<le> nextId (st (handle s r))" by (rule nextId_handle_mono)
  show ?case
  proof (cases "new_id (resp (handle s r))")
    case None
    with Cons.prems have "i \<in> set (assigned_ids (st (handle s r)) rs)"
      by (simp add: assigned_ids_Cons)
    from Cons.IH [OF this] mono show ?thesis by simp
  next
    case (Some j)
    then have j: "j = nextId s" by (rule new_id_handle)
    from Cons.prems Some have "i = j \<or> i \<in> set (assigned_ids (st (handle s r)) rs)"
      by (simp add: assigned_ids_Cons)
    then show ?thesis
    proof
      assume "i = j" with j show ?thesis by simp
    next
      assume "i \<in> set (assigned_ids (st (handle s r)) rs)"
      from Cons.IH [OF this] mono show ?thesis by simp
    qed
  qed
qed

lemma assigned_ids_increasing: "sorted_wrt (<) (assigned_ids s rs)"
proof (induction rs arbitrary: s)
  case Nil
  then show ?case by simp
next
  case (Cons r rs)
  show ?case
  proof (cases "new_id (resp (handle s r))")
    case None
    then show ?thesis by (simp add: assigned_ids_Cons Cons.IH)
  next
    case (Some j)
    then have j: "j = nextId s" by (rule new_id_handle)
    have succ: "nextId (st (handle s r)) = j + 1"
      using Some j by (simp add: nextId_handle)
    have "\<forall>i \<in> set (assigned_ids (st (handle s r)) rs). j < i"
    proof
      fix i assume "i \<in> set (assigned_ids (st (handle s r)) rs)"
      then have "nextId (st (handle s r)) \<le> i" by (rule assigned_ids_lower)
      with succ show "j < i" by simp
    qed
    then show ?thesis using Some by (simp add: assigned_ids_Cons Cons.IH)
  qed
qed

lemma counter_never_decremented:
  "sorted (nextId s # map (\<lambda>r. nextId (st r)) (trace s rs))"
proof (induction rs arbitrary: s)
  case Nil
  then show ?case by simp
next
  case (Cons r rs)
  have "sorted (nextId (st (handle s r)) # map (\<lambda>r. nextId (st r)) (trace (st (handle s r)) rs))"
    by (rule Cons.IH)
  moreover have "nextId s \<le> nextId (st (handle s r))" by (rule nextId_handle_mono)
  ultimately show ?case by auto
qed

subsection \<open>Ids that are not in the catalog\<close>

lemma unknown_id_get_item:
  "map_of (inventoryItems s) i = None \<Longrightarrow>
     get_item s i = \<lparr>st = s, resp = \<lparr>status = 404, body = Error (ItemNotFound i)\<rparr>, logged = []\<rparr>"
  by (simp add: get_item_def findItem_def)

lemma unknown_id_update_item:
  "map_of (inventoryItems s) i = None \<Longrightarrow>
     update_item s i name description =
       \<lparr>st = s, resp = \<lparr>status = 404, body = Error (ItemNotFound i)\<rparr>, logged = []\<rparr>"
  by (simp add: update_item_def findItem_def)

lemma unknown_id_delete_item:
  "map_of (inventoryItems s) i = None \<Longrightarrow>
     delete_item s i unlink_fails =
       \<lparr>st = s, resp = \<lparr>status = 404, body = Error (ItemNotFound i)\<rparr>, logged = []\<rparr>"
  by (simp add: delete_item_def findItem_def)

lemma unknown_id_get_photo:
  "map_of (inventoryItems s) i = None \<Longrightarrow>
     get_photo s i = \<lparr>st = s, resp = \<lparr>status = 404, body = Error (PhotoNotFound i)\<rparr>, logged = []\<rparr>"
  by (simp add: get_photo_def)

lemma unknown_id_search:
  "map_of (inventoryItems s) i = None \<Longrightarrow>
     search s i has_photo =
       \<lparr>st = s, resp = \<lparr>status = 404, body = Error SearchNotFound\<rparr>, logged = []\<rparr>"
  by (simp add: search_def)

lemma unknown_id_replace_photo:
  "map_of (inventoryItems s) i = None \<Longrightarrow>
     replace_photo s i photo unlink_fails =
       \<lparr>st = s, resp = \<lparr>status = 404, body = Error (ItemNotFound i)\<rparr>, logged = []\<rparr>"
  by (simp add: replace_photo_def findItem_def)

text \<open>On every route but \<open>PUT /inventory/:id/photo\<close> an unknown id is answered with 404
  and nothing changes; on that route the answer is 404 too, and the state left behind is
  the one the upload middleware produced: an uploaded file stays in the directory.\<close>

lemma unknown_id_not_found:
  assumes "map_of (inventoryItems s) i = None"
  shows "handle s (GetItem i) =
           \<lparr>st = s, resp = \<lparr>status = 404, body = Error (ItemNotFound i)\<rparr>, logged = []\<rparr>"
    and "handle s (PutItem i name description) =
           \<lparr>st = s, resp = \<lparr>status = 404, body = Error (ItemNotFound i)\<rparr>, logged = []\<rparr>"
    and "handle s (DeleteItem i unlink_fails) =
           \<lparr>st = s, resp = \<lparr>status = 404, body = Error (ItemNotFound i)\<rparr>, logged = []\<rparr>"
    and "handle s (GetPhoto i) =
           \<lparr>st = s, resp = \<lparr>status = 404, body = Error (PhotoNotFound i)\<rparr>, logged = []\<rparr>"
    and "handle s (PostSearch i has_photo) =
           \<lparr>st = s, resp = \<lparr>status = 404, body = Error SearchNotFound\<rparr>, logged = []\<rparr>"
    and "handle s (PutPhoto i None unlink_fails) =
           \<lparr>st = s, resp = \<lparr>status = 404, body = Error (ItemNotFound i)\<rparr>, logged = []\<rparr>"
    and "handle s (PutPhoto i (Some upl) unlink_fails) =
           \<lparr>st = s\<lparr>cache := (cache s)(filename upl \<mapsto> content upl)\<rparr>,
            resp = \<lparr>status = 404, body = Error (ItemNotFound i)\<rparr>, logged = []\<rparr>"
  using assms
  by (simp_all add: unknown_id_get_item unknown_id_update_item unknown_id_delete_item
      unknown_id_get_photo unknown_id_search unknown_id_replace_photo upload_single_def)

lemma NaN_not_found:
  "handle (run (init dir) rs) (GetItem NaN) =
     \<lparr>st = run (init dir) rs, resp = \<lparr>status = 404, body = Error (ItemNotFound NaN)\<rparr>, logged = []\<rparr>"
  "handle (run (init dir) rs) (PutItem NaN name description) =
     \<lparr>st = run (init dir) rs, resp = \<lparr>status = 404, body = Error (ItemNotFound NaN)\<rparr>, logged = []\<rparr>"
  "handle (run (init dir) rs) (DeleteItem NaN unlink_fails) =
     \<lparr>st = run (init dir) rs, resp = \<lparr>status = 404, body = Error (ItemNotFound NaN)\<rparr>, logged = []\<rparr>"
  "handle (run (init dir) rs) (GetPhoto NaN) =
     \<lparr>st = run (init dir) rs, resp = \<lparr>status = 404, body = Error (PhotoNotFound NaN)\<rparr>, logged = []\<rparr>"
  "handle (run (init dir) rs) (PostSearch NaN has_photo) =
     \<lparr>st = run (init dir) rs, resp = \<lparr>status = 404, body = Error SearchNotFound\<rparr>, logged = []\<rparr>"
  "handle (run (init dir) rs) (PutPhoto NaN None unlink_fails) =
     \<lparr>st = run (init dir) rs, resp = \<lparr>status = 404, body = Error (ItemNotFound NaN)\<rparr>, logged = []\<rparr>"
  "handle (run (init dir) rs) (PutPhoto NaN (Some upl) unlink_fails) =
     \<lparr>st = (run (init dir) rs)\<lparr>cache := (cache (run (init dir) rs))(filename upl \<mapsto> content upl)\<rparr>,
      resp = \<lparr>status = 404, body = Error (ItemNotFound NaN)\<rparr>, logged = []\<rparr>"
  using unknown_id_not_found [OF inv_NaN [OF inv_reached [of dir rs]]] by blast+

subsection \<open>The listing\<close>

lemma listed_ids_list_items:
  "listed_ids (resp (list_items s)) = map (\<lambda>e. ID (snd e)) (inventoryItems s)"
proof -
  have "List.map_filter (\<lambda>v. case field v ''ID'' of Some (JNum i) \<Rightarrow> Some i | _ \<Rightarrow> None)
          (map prepareItemResponse (map snd al)) = map (\<lambda>e. ID (snd e)) al" for al :: "(jsnum \<times> item) list"
    by (induction al) (simp_all add: map_filter_simps field_def prepareItemResponse_def)
  then show ?thesis by (simp add: listed_ids_def list_items_def)
qed

lemma deleted_not_listed:
  assumes "inv s"
  shows "n \<notin> (\<lambda>e. ID (snd e)) ` set (AList.delete (Num n) (inventoryItems s))"
proof
  assume "n \<in> (\<lambda>e. ID (snd e)) ` set (AList.delete (Num n) (inventoryItems s))"
  then obtain e where e: "e \<in> set (inventoryItems s)" "fst e \<noteq> Num n" "ID (snd e) = n"
    by (auto simp: AList.delete_eq)
  from inv_entry [OF assms e(1)] e(2,3) show False by simp
qed

subsection \<open>The sample data\<close>

lemmas handler_defs =
  register_def list_items_def get_item_def update_item_def delete_item_def get_photo_def
  replace_photo_def search_def findItem_def upload_single_def unlink_def
  prepareItemResponse_def truthy_def init_def no_files_def

lemma filename_photo_a: "filename photo_a = ''5-a.jpg''"
  by (simp add: filename_def photo_a_def show_int_def digits.simps is_space_def)

lemma filename_photo_a': "filename photo_a' = ''5-a.jpg''"
  by (simp add: filename_def photo_a'_def show_int_def digits.simps is_space_def)

lemma filename_photo_b: "filename photo_b = ''6-my_cat.jpg''"
  by (simp add: filename_def photo_b_def show_int_def digits.simps is_space_def)

section \<open>The claims\<close>

subsection \<open>C1: ids are never reused\<close>

text \<open>
  C1. Whatever requests are served from the initial catalog (counter 1, no items), and in
  particular any interleaving of registrations and deletions: the ids reported by the
  successful registrations, in the order of the requests, are strictly increasing, so no
  id is assigned twice; and the sequence of counter values, from its initial value on,
  never goes down.
\<close>

theorem register_ids_strictly_increasing:
  "sorted_wrt (<) (assigned_ids (init dir) rs) \<and>
   distinct (assigned_ids (init dir) rs) \<and>
   sorted (nextId (init dir) # map (\<lambda>r. nextId (st r)) (trace (init dir) rs))"
proof -
  have inc: "sorted_wrt (<) (assigned_ids (init dir) rs)"
    by (rule assigned_ids_increasing)
  then have dist: "distinct (assigned_ids (init dir) rs)"
    by (simp add: strict_sorted_iff)
  have "sorted (nextId (init dir) # map (\<lambda>r. nextId (st r)) (trace (init dir) rs))"
    by (rule counter_never_decremented)
  with inc dist show ?thesis by blast
qed

theorem register_ids_strictly_increasing_witness:
  "assigned_ids (init no_files)
     [PostRegister (Some ''Drill'') None None False, DeleteItem (Num 1) False,
      PostRegister None None None False, PostRegister (Some ''Saw'') None None False] = [1, 2] \<and>
   sorted_wrt (<) (assigned_ids (init no_files)
     [PostRegister (Some ''Drill'') None None False, DeleteItem (Num 1) False,
      PostRegister None None None False, PostRegister (Some ''Saw'') None None False])"
  using register_ids_strictly_increasing [of no_files
      "[PostRegister (Some ''Drill'') None None False, DeleteItem (Num 1) False,
        PostRegister None None None False, PostRegister (Some ''Saw'') None None False]"]
  by (simp add: assigned_ids_def map_filter_simps init_def no_files_def upload_single_def
      register_def delete_item_def findItem_def truthy_def new_id_def prepareItemResponse_def)

subsection \<open>C2: registration without a name\<close>

text \<open>
  C2 (as amended). A registration whose name field is absent or empty is answered with
  400 and the name-required error; the counter and the dictionary are as before. A photo
  that the middleware stored for the request is unlinked on a best-effort basis: when the
  unlink succeeds the stored file is gone from the directory, and when it fails the
  failure is logged and the stored file stays.
\<close>

theorem register_without_name:
  assumes "inventory_name = None \<or> inventory_name = Some []"
    and "r = handle s (PostRegister inventory_name description part unlink_fails)"
  shows "resp r = \<lparr>status = 400, body = Error NameRequired\<rparr> \<and>
         nextId (st r) = nextId s \<and>
         inventoryItems (st r) = inventoryItems s \<and>
         (case part of
            None \<Rightarrow> cache (st r) = cache s \<and> logged r = []
          | Some file \<Rightarrow>
              if unlink_fails
              then cache (st r) = (cache s)(filename file \<mapsto> content file) \<and> logged r = [EPERM]
              else cache (st r) = (cache s)(filename file := None) \<and> logged r = [])"
proof -
  have falsy: "\<not> truthy inventory_name"
    using assms(1) by (auto simp: truthy_def)
  show ?thesis
  proof (cases part)
    case None
    with falsy assms(2) show ?thesis
      by (simp add: upload_single_def register_def truthy_def)
  next
    case (Some upl)
    with falsy assms(2) show ?thesis
      by (simp add: upload_single_def register_def unlink_def truthy_filename)
  qed
qed

theorem register_without_name_witness:
  "((Some [] :: string option) = None \<or> (Some [] :: string option) = Some []) \<and>
   resp (handle (init no_files) (PostRegister (Some []) None (Some photo_b) False)) =
     \<lparr>status = 400, body = Error NameRequired\<rparr> \<and>
   nextId (st (handle (init no_files) (PostRegister (Some []) None (Some photo_b) False))) = 1 \<and>
   inventoryItems (st (handle (init no_files) (PostRegister (Some []) None (Some photo_b) False))) = [] \<and>
   cache (st (handle (init no_files) (PostRegister (Some []) None (Some photo_b) False)))
     ''6-my_cat.jpg'' = None"
  using register_without_name [of "Some []" _ "init no_files" None "Some photo_b" False, OF _ refl]
  by (simp add: filename_photo_b init_def no_files_def)

text \<open>
  C2 as first stated (the stored photo is always removed, no orphan is left) fails when
  the unlink is rejected: the upload, which was not in the directory before the request,
  is still there after the 400, and the rejection is logged.
\<close>

theorem register_without_name_counterexample:
  "status (resp (handle (init no_files) (PostRegister None None (Some photo_a) True))) = 400 \<and>
   filename photo_a = ''5-a.jpg'' \<and>
   cache (init no_files) ''5-a.jpg'' = None \<and>
   cache (st (handle (init no_files) (PostRegister None None (Some photo_a) True))) ''5-a.jpg''
     = Some [1] \<and>
   logged (handle (init no_files) (PostRegister None None (Some photo_a) True)) = [EPERM]"
  by (simp add: handler_defs filename_photo_a) (simp add: photo_a_def)

subsection \<open>C3: ids that are not in the catalog\<close>

text \<open>
  C3. For an id that is not in the catalog, the item, update, delete and search routes
  answer 404 and change nothing (\<open>unknown_id_not_found\<close>), and so does a photo
  replacement that carries no file. A photo replacement that carries a file is answered
  with 404 as well, with the dictionary and the counter as before, but the file that the
  middleware stored for the request is left in the directory, which had no such file
  before: the directory is not unchanged.
\<close>

theorem replace_photo_unknown_id_keeps_upload:
  "map_of (inventoryItems (init no_files)) (Num 7) = None \<and>
   status (resp (handle (init no_files) (PutPhoto (Num 7) (Some photo_a) False))) = 404 \<and>
   inventoryItems (st (handle (init no_files) (PutPhoto (Num 7) (Some photo_a) False))) = [] \<and>
   filename photo_a = ''5-a.jpg'' \<and>
   cache (init no_files) ''5-a.jpg'' = None \<and>
   cache (st (handle (init no_files) (PutPhoto (Num 7) (Some photo_a) False))) ''5-a.jpg''
     = Some [1]"
  by (simp add: handler_defs filename_photo_a) (simp add: photo_a_def)

subsection \<open>C4: registration with a name\<close>

text \<open>
  C4. In every state the server reaches, a registration with a non-empty name is answered
  with 201. The item is stored under the current counter value, a key that was free, with
  the given name, the given description or the empty string, and the stored file name of
  the photo if there was one; the counter goes up by one. The response carries the item
  view with the four fields \<open>ID\<close>, \<open>InventoryName\<close>, \<open>Description\<close> and \<open>PhotoLink\<close>, where
  \<open>PhotoLink\<close> is null without a photo and otherwise the path \<open>/inventory/{id}/photo\<close>,
  which is never the stored file name.
\<close>

theorem register_with_name:
  assumes "name \<noteq> []"
    and "s = run (init dir) rs"
    and "r = handle s (PostRegister (Some name) description part unlink_fails)"
    and "it = \<lparr>ID = nextId s, InventoryName = name,
               Description = (case description of None \<Rightarrow> [] | Some d \<Rightarrow> d),
               Photo = map_option filename part\<rparr>"
  shows "status (resp r) = 201 \<and>
         body (resp r) = MsgView Registered
           (JObj [(''ID'', JNum (nextId s)),
                  (''InventoryName'', JStr name),
                  (''Description'', JStr (case description of None \<Rightarrow> [] | Some d \<Rightarrow> d)),
                  (''PhotoLink'', case part of None \<Rightarrow> JNull
                                   | Some upl \<Rightarrow> JStr (photo_path (nextId s)))]) \<and>
         map_of (inventoryItems s) (Num (nextId s)) = None \<and>
         inventoryItems (st r) = inventoryItems s @ [(Num (nextId s), it)] \<and>
         map_of (inventoryItems (st r)) (Num (nextId s)) = Some it \<and>
         nextId (st r) = nextId s + 1 \<and>
         (case part of
            None \<Rightarrow> cache (st r) = cache s
          | Some upl \<Rightarrow> cache (st r) = (cache s)(filename upl \<mapsto> content upl) \<and>
                        photo_path (nextId s) \<noteq> filename upl) \<and>
         logged r = []"
proof -
  have "inv s" using assms(2) by (simp add: inv_reached)
  then have fresh: "map_of (inventoryItems s) (Num (nextId s)) = None"
    by (simp add: inv_fresh)
  have tr: "truthy (Some name)" using assms(1) by (simp add: truthy_def)
  have d: "(case (if truthy description then description else None) of None \<Rightarrow> [] | Some d \<Rightarrow> d)
           = (case description of None \<Rightarrow> [] | Some d \<Rightarrow> d)"
    by (simp add: truthy_def split: option.splits)
  show ?thesis
  proof (cases part)
    case None
    with assms fresh tr d show ?thesis
      by (simp add: upload_single_def register_def Let_def prepareItemResponse_def
          update_absent truthy_def map_add_def)
  next
    case (Some upl)
    with assms fresh tr d show ?thesis
      by (simp add: upload_single_def register_def Let_def prepareItemResponse_def
          update_absent truthy_filename photo_path_not_filename map_add_def)
  qed
qed

theorem register_with_name_witness:
  "''Saw'' \<noteq> [] \<and>
   resp (handle (run (init no_files) [PostRegister (Some ''Drill'') (Some ''Cordless drill'') None False])
           (PostRegister (Some ''Saw'') None (Some photo_b) False)) =
     \<lparr>status = 201,
      body = MsgView Registered
        (JObj [(''ID'', JNum 2), (''InventoryName'', JStr ''Saw''), (''Description'', JStr []),
               (''PhotoLink'', JStr ''/inventory/2/photo'')])\<rparr> \<and>
   map_of (inventoryItems (st (handle (run (init no_files) [PostRegister (Some ''Drill'') (Some ''Cordless drill'') None False])
           (PostRegister (Some ''Saw'') None (Some photo_b) False)))) (Num 2) =
     Some \<lparr>ID = 2, InventoryName = ''Saw'', Description = [], Photo = Some ''6-my_cat.jpg''\<rparr>"
  using register_with_name [of "''Saw''" _ no_files
      "[PostRegister (Some ''Drill'') (Some ''Cordless drill'') None False]" _ None
      "Some photo_b" False, OF _ refl refl refl]
  by (simp add: handler_defs filename_photo_b Let_def photo_path_def show_int_def digits.simps)

subsection \<open>C5: update\<close>

text \<open>
  C5. An update of an item that exists is answered with 200 and the view of the updated
  item. The name and the description become the supplied values, and a field that is not
  supplied keeps its value; the \<open>ID\<close> and the photo reference stay; every other entry
  of the dictionary, the order of its keys, the counter and the directory stay. No value
  of the name is rejected: the empty string is stored like any other.
\<close>

theorem update_changes_supplied_fields:
  assumes "map_of (inventoryItems s) i = Some it"
    and "r = handle s (PutItem i name description)"
    and "it' = \<lparr>ID = ID it,
                InventoryName = (case name of None \<Rightarrow> InventoryName it | Some n \<Rightarrow> n),
                Description = (case description of None \<Rightarrow> Description it | Some d \<Rightarrow> d),
                Photo = Photo it\<rparr>"
  shows "status (resp r) = 200 \<and>
         body (resp r) = View (prepareItemResponse it') \<and>
         map_of (inventoryItems (st r)) = (map_of (inventoryItems s))(i \<mapsto> it') \<and>
         map fst (inventoryItems (st r)) = map fst (inventoryItems s) \<and>
         nextId (st r) = nextId s \<and>
         cache (st r) = cache s \<and>
         logged r = []"
proof -
  have it2: "(case description of
               None \<Rightarrow> (case name of None \<Rightarrow> it | Some n \<Rightarrow> it\<lparr>InventoryName := n\<rparr>)
             | Some d \<Rightarrow> (case name of None \<Rightarrow> it | Some n \<Rightarrow> it\<lparr>InventoryName := n\<rparr>)\<lparr>Description := d\<rparr>)
            = it'"
    using assms(3) by (cases it) (simp split: option.splits)
  show ?thesis
    using assms(1,2) it2
    by (simp add: update_item_def findItem_def Let_def update_conv' update_keys_present)
qed

theorem update_changes_supplied_fields_witness:
  "map_of (inventoryItems (run (init no_files) [PostRegister (Some ''Drill'') (Some ''Cordless drill'') (Some photo_b) False])) (Num 1)
     = Some \<lparr>ID = 1, InventoryName = ''Drill'', Description = ''Cordless drill'', Photo = Some ''6-my_cat.jpg''\<rparr> \<and>
   resp (handle (run (init no_files) [PostRegister (Some ''Drill'') (Some ''Cordless drill'') (Some photo_b) False])
          (PutItem (Num 1) (Some []) None)) =
     \<lparr>status = 200,
      body = View (JObj [(''ID'', JNum 1), (''InventoryName'', JStr []),
                         (''Description'', JStr ''Cordless drill''),
                         (''PhotoLink'', JStr ''/inventory/1/photo'')])\<rparr> \<and>
   map_of (inventoryItems (st (handle (run (init no_files) [PostRegister (Some ''Drill'') (Some ''Cordless drill'') (Some photo_b) False])
          (PutItem (Num 1) (Some []) None)))) (Num 1) =
     Some \<lparr>ID = 1, InventoryName = [], Description = ''Cordless drill'', Photo = Some ''6-my_cat.jpg''\<rparr>"
proof -
  have found: "map_of (inventoryItems (run (init no_files) [PostRegister (Some ''Drill'') (Some ''Cordless drill'') (Some photo_b) False])) (Num 1)
     = Some \<lparr>ID = 1, InventoryName = ''Drill'', Description = ''Cordless drill'', Photo = Some ''6-my_cat.jpg''\<rparr>"
    by (simp add: handler_defs filename_photo_b Let_def)
  show ?thesis
    using found update_changes_supplied_fields [OF found refl refl, of "Some []" None]
    by (simp add: handler_defs filename_photo_b Let_def photo_path_def show_int_def digits.simps)
qed

subsection \<open>C6: search\<close>

text \<open>
  C6. In every state the server reaches, a search for an item that exists is answered
  with 200, changes nothing, and returns an object with the fields \<open>ID\<close>,
  \<open>InventoryName\<close> and \<open>Description\<close> of the item. The object has a fourth field
  \<open>PhotoLink\<close>, holding the photo path, exactly when \<open>has_photo\<close> is \<open>on\<close> and the item has a
  photo; otherwise it has no such field at all (in particular not one that is null).
\<close>

theorem search_reduced_view:
  assumes "s = run (init dir) rs"
    and "map_of (inventoryItems s) i = Some it"
    and "r = handle s (PostSearch i has_photo)"
  shows "status (resp r) = 200 \<and>
         st r = s \<and>
         (\<exists>v. body (resp r) = View v \<and>
              field v ''ID'' = Some (JNum (ID it)) \<and>
              field v ''InventoryName'' = Some (JStr (InventoryName it)) \<and>
              field v ''Description'' = Some (JStr (Description it)) \<and>
              field v ''PhotoLink'' =
                (if has_photo = Some ''on'' \<and> Photo it \<noteq> None
                 then Some (JStr (photo_path (ID it))) else None) \<and>
              fields_of v =
                (if has_photo = Some ''on'' \<and> Photo it \<noteq> None
                 then [''ID'', ''InventoryName'', ''Description'', ''PhotoLink'']
                 else [''ID'', ''InventoryName'', ''Description'']))"
proof -
  have "truthy (Photo it) \<longleftrightarrow> Photo it \<noteq> None"
    using assms(1,2) by (simp add: reached_photo)
  with assms(2,3) show ?thesis
    by (simp add: search_def Let_def field_def fields_of_def)
qed

theorem search_reduced_view_witness:
  "map_of (inventoryItems (run (init no_files) [PostRegister (Some ''Drill'') None (Some photo_b) False])) (Num 1)
     = Some \<lparr>ID = 1, InventoryName = ''Drill'', Description = [], Photo = Some ''6-my_cat.jpg''\<rparr> \<and>
   body (resp (handle (run (init no_files) [PostRegister (Some ''Drill'') None (Some photo_b) False])
          (PostSearch (Num 1) None))) =
     View (JObj [(''ID'', JNum 1), (''InventoryName'', JStr ''Drill''), (''Description'', JStr [])]) \<and>
   fields_of (JObj [(''ID'', JNum 1), (''InventoryName'', JStr ''Drill''), (''Description'', JStr [])])
     = [''ID'', ''InventoryName'', ''Description'']"
proof -
  have found: "map_of (inventoryItems (run (init no_files) [PostRegister (Some ''Drill'') None (Some photo_b) False])) (Num 1)
     = Some \<lparr>ID = 1, InventoryName = ''Drill'', Description = [], Photo = Some ''6-my_cat.jpg''\<rparr>"
    by (simp add: handler_defs filename_photo_b Let_def)
  show ?thesis
    using found search_reduced_view [OF refl found refl, of None]
    by (simp add: handler_defs filename_photo_b Let_def fields_of_def)
qed

subsection \<open>C7: deletion\<close>

text \<open>
  C7. In every state the server reaches, deleting an item that exists is answered with
  200. Afterwards the key is not in the dictionary, the id, which was listed by
  \<open>GET /inventory\<close> before, is not listed any more, and \<open>GET /inventory/:id/photo\<close> answers
  404. The file of the item's photo, if the item had one, is removed from the directory;
  if the unlink is rejected (the file is missing, or the file system refuses) the
  rejection is logged and the deletion is carried out all the same. The counter is not
  changed, and no later sequence of requests assigns the id again.
\<close>

theorem delete_removes_item:
  assumes "s = run (init dir) rs"
    and "map_of (inventoryItems s) i = Some it"
    and "r = handle s (DeleteItem i unlink_fails)"
  shows "resp r = \<lparr>status = 200, body = Msg (Deleted (ID it))\<rparr> \<and>
         map_of (inventoryItems (st r)) = (map_of (inventoryItems s))(i := None) \<and>
         ID it \<in> set (listed_ids (resp (handle s GetInventory))) \<and>
         ID it \<notin> set (listed_ids (resp (handle (st r) GetInventory))) \<and>
         status (resp (handle (st r) (GetPhoto i))) = 404 \<and>
         (case Photo it of
            None \<Rightarrow> cache (st r) = cache s \<and> logged r = []
          | Some name \<Rightarrow>
              if cache s name = None then cache (st r) = cache s \<and> logged r = [ENOENT]
              else if unlink_fails then cache (st r) = cache s \<and> logged r = [EPERM]
              else cache (st r) = (cache s)(name := None) \<and> logged r = []) \<and>
         nextId (st r) = nextId s \<and>
         ID it \<notin> set (assigned_ids (st r) rs')"
proof -
  have inv: "inv s" using assms(1) by (simp add: inv_reached)
  from inv_lookup [OF inv assms(2)]
  have key: "i = Num (ID it)" and below: "ID it < nextId s" and photo: "Photo it \<noteq> Some []"
    by simp_all
  have tr: "truthy (Photo it) \<longleftrightarrow> Photo it \<noteq> None"
    using photo by (cases "Photo it") (auto simp: truthy_def)
  have r: "r = delete_item s i unlink_fails" using assms(3) by simp
  have items: "inventoryItems (st r) = AList.delete i (inventoryItems s)"
    using assms(2) key r
    by (auto simp: delete_item_def findItem_def unlink_def split: option.splits)
  have resp: "resp r = \<lparr>status = 200, body = Msg (Deleted (ID it))\<rparr>"
    using assms(2) r
    by (auto simp: delete_item_def findItem_def unlink_def split: option.splits)
  have gone: "map_of (inventoryItems (st r)) = (map_of (inventoryItems s))(i := None)"
    using items by (simp add: delete_conv')
  have before: "ID it \<in> set (listed_ids (resp (handle s GetInventory)))"
    using map_of_SomeD [OF assms(2)] by (force simp: listed_ids_list_items)
  have after: "ID it \<notin> set (listed_ids (resp (handle (st r) GetInventory)))"
    using deleted_not_listed [OF inv, of "ID it"] items key
    by (simp add: listed_ids_list_items)
  have photo404: "status (resp (handle (st r) (GetPhoto i))) = 404"
    using gone by (simp add: unknown_id_get_photo)
  have files: "(case Photo it of
            None \<Rightarrow> cache (st r) = cache s \<and> logged r = []
          | Some name \<Rightarrow>
              if cache s name = None then cache (st r) = cache s \<and> logged r = [ENOENT]
              else if unlink_fails then cache (st r) = cache s \<and> logged r = [EPERM]
              else cache (st r) = (cache s)(name := None) \<and> logged r = [])"
    using assms(2) r tr
    by (auto simp: delete_item_def findItem_def unlink_def split: option.splits)
  have counter: "nextId (st r) = nextId s"
    using r by (simp add: nextId_delete_item)
  have never: "ID it \<notin> set (assigned_ids (st r) rs')"
  proof
    assume "ID it \<in> set (assigned_ids (st r) rs')"
    then have "nextId (st r) \<le> ID it" by (rule assigned_ids_lower)
    with counter below show False by simp
  qed
  from resp gone before after photo404 files counter never show ?thesis by blast
qed

theorem delete_removes_item_witness:
  "map_of (inventoryItems (run (init no_files) [PostRegister (Some ''Drill'') None (Some photo_b) False])) (Num 1)
     = Some \<lparr>ID = 1, InventoryName = ''Drill'', Description = [], Photo = Some ''6-my_cat.jpg''\<rparr> \<and>
   resp (handle (run (init no_files) [PostRegister (Some ''Drill'') None (Some photo_b) False])
          (DeleteItem (Num 1) False)) = \<lparr>status = 200, body = Msg (Deleted 1)\<rparr> \<and>
   cache (run (init no_files) [PostRegister (Some ''Drill'') None (Some photo_b) False]) ''6-my_cat.jpg''
     = Some [3] \<and>
   cache (st (handle (run (init no_files) [PostRegister (Some ''Drill'') None (Some photo_b) False])
          (DeleteItem (Num 1) False))) ''6-my_cat.jpg'' = None \<and>
   1 \<notin> set (assigned_ids (st (handle (run (init no_files) [PostRegister (Some ''Drill'') None (Some photo_b) False])
          (DeleteItem (Num 1) False))) [PostRegister (Some ''Saw'') None None False])"
proof -
  have found: "map_of (inventoryItems (run (init no_files) [PostRegister (Some ''Drill'') None (Some photo_b) False])) (Num 1)
     = Some \<lparr>ID = 1, InventoryName = ''Drill'', Description = [], Photo = Some ''6-my_cat.jpg''\<rparr>"
    by (simp add: handler_defs filename_photo_b Let_def)
  have blob: "cache (run (init no_files) [PostRegister (Some ''Drill'') None (Some photo_b) False]) ''6-my_cat.jpg''
     = Some [3]"
    by (simp add: handler_defs filename_photo_b Let_def) (simp add: photo_b_def)
  show ?thesis
    using found blob
      delete_removes_item [OF refl found refl, of False "[PostRegister (Some ''Saw'') None None False]"]
    by simp
qed

subsection \<open>C8: photo replacement\<close>

text \<open>
  What a photo replacement does for an item that exists, in every state the server
  reaches. Without a file it is answered with 400 and changes nothing. With a file it is
  answered with 200 and the view of the updated item, the item refers to the new file,
  and the counter stays. The file referred to before, if any, is unlinked in the
  directory as the middleware left it: it is gone when the unlink succeeds, and a
  rejection is logged. \<open>GET /inventory/:id/photo\<close> then sends the uploaded bytes, except
  when the generated name of the new file is the item's old reference and the unlink
  succeeds: then the file unlinked is the one just stored, and the answer is 500.
\<close>

lemma replace_photo_effect:
  assumes "s = run (init dir) rs"
    and "map_of (inventoryItems s) i = Some it"
    and "r = handle s (PutPhoto i part unlink_fails)"
  shows "case part of
           None \<Rightarrow>
             resp r = \<lparr>status = 400, body = Error FileNotProvided\<rparr> \<and> st r = s \<and> logged r = []
         | Some upl \<Rightarrow>
             resp r = \<lparr>status = 200,
                       body = MsgView (PhotoUpdated (ID it))
                                (prepareItemResponse (it\<lparr>Photo := Some (filename upl)\<rparr>))\<rparr> \<and>
             map_of (inventoryItems (st r)) =
               (map_of (inventoryItems s))(i \<mapsto> it\<lparr>Photo := Some (filename upl)\<rparr>) \<and>
             nextId (st r) = nextId s \<and>
             (case Photo it of
                None \<Rightarrow> cache (st r) = (cache s)(filename upl \<mapsto> content upl) \<and> logged r = []
              | Some old \<Rightarrow>
                  if ((cache s)(filename upl \<mapsto> content upl)) old = None
                  then cache (st r) = (cache s)(filename upl \<mapsto> content upl) \<and> logged r = [ENOENT]
                  else if unlink_fails
                  then cache (st r) = (cache s)(filename upl \<mapsto> content upl) \<and> logged r = [EPERM]
                  else cache (st r) = (cache s)(filename upl \<mapsto> content upl, old := None) \<and>
                       logged r = []) \<and>
             resp (handle (st r) (GetPhoto i)) =
               (if Photo it = Some (filename upl) \<and> \<not> unlink_fails
                then \<lparr>status = 500, body = Error ServerError\<rparr>
                else \<lparr>status = 200, body = SentFile ''image/jpeg'' (content upl)\<rparr>)"
proof (cases part)
  case None
  with assms(2,3) show ?thesis
    by (simp add: upload_single_def replace_photo_def findItem_def)
next
  case (Some upl)
  have inv: "inv s" using assms(1) by (simp add: inv_reached)
  from inv_lookup [OF inv assms(2)] have photo: "Photo it \<noteq> Some []" by simp
  have tr: "truthy (Photo it) \<longleftrightarrow> Photo it \<noteq> None"
    using photo by (cases "Photo it") (auto simp: truthy_def)
  define s0 where "s0 = s\<lparr>cache := (cache s)(filename upl \<mapsto> content upl)\<rparr>"
  have r: "r = replace_photo s0 i (Some (filename upl)) unlink_fails"
    using assms(3) Some by (simp add: upload_single_def s0_def)
  have found: "map_of (inventoryItems s0) i = Some it"
    using assms(2) by (simp add: s0_def)
  have resp: "resp r = \<lparr>status = 200,
                       body = MsgView (PhotoUpdated (ID it))
                                (prepareItemResponse (it\<lparr>Photo := Some (filename upl)\<rparr>))\<rparr>"
    using r found
    by (auto simp: replace_photo_def findItem_def unlink_def Let_def split: option.splits)
  have items: "map_of (inventoryItems (st r)) =
               (map_of (inventoryItems s))(i \<mapsto> it\<lparr>Photo := Some (filename upl)\<rparr>)"
    using r found
    by (auto simp: replace_photo_def findItem_def unlink_def Let_def update_conv' s0_def
        split: option.splits)
  have counter: "nextId (st r) = nextId s"
    using r by (simp add: nextId_replace_photo s0_def)
  have files: "(case Photo it of
                None \<Rightarrow> cache (st r) = (cache s)(filename upl \<mapsto> content upl) \<and> logged r = []
              | Some old \<Rightarrow>
                  if ((cache s)(filename upl \<mapsto> content upl)) old = None
                  then cache (st r) = (cache s)(filename upl \<mapsto> content upl) \<and> logged r = [ENOENT]
                  else if unlink_fails
                  then cache (st r) = (cache s)(filename upl \<mapsto> content upl) \<and> logged r = [EPERM]
                  else cache (st r) = (cache s)(filename upl \<mapsto> content upl, old := None) \<and>
                       logged r = [])"
    using r found tr
    by (auto simp: replace_photo_def findItem_def unlink_def Let_def s0_def
        split: option.splits)
  have stored: "cache (st r) (filename upl) =
                  (if Photo it = Some (filename upl) \<and> \<not> unlink_fails then None
                   else Some (content upl))"
    using files by (auto split: option.splits if_splits)
  have served: "resp (handle (st r) (GetPhoto i)) =
               (if Photo it = Some (filename upl) \<and> \<not> unlink_fails
                then \<lparr>status = 500, body = Error ServerError\<rparr>
                else \<lparr>status = 200, body = SentFile ''image/jpeg'' (content upl)\<rparr>)"
    using items stored by (simp add: get_photo_def truthy_filename)
  from resp items counter files served Some show ?thesis by simp
qed

text \<open>An instance: the item of the first registration refers to \<open>5-a.jpg\<close>, the new file
  gets another name, the old file is removed and the new bytes are sent.\<close>

lemma replace_photo_effect_example:
  "map_of (inventoryItems (run (init no_files) [PostRegister (Some ''Drill'') None (Some photo_a) False])) (Num 1)
     = Some \<lparr>ID = 1, InventoryName = ''Drill'', Description = [], Photo = Some ''5-a.jpg''\<rparr> \<and>
   resp (handle (run (init no_files) [PostRegister (Some ''Drill'') None (Some photo_a) False])
          (PutPhoto (Num 1) (Some photo_b) False)) =
     \<lparr>status = 200,
      body = MsgView (PhotoUpdated 1)
        (JObj [(''ID'', JNum 1), (''InventoryName'', JStr ''Drill''), (''Description'', JStr []),
               (''PhotoLink'', JStr ''/inventory/1/photo'')])\<rparr> \<and>
   cache (st (handle (run (init no_files) [PostRegister (Some ''Drill'') None (Some photo_a) False])
          (PutPhoto (Num 1) (Some photo_b) False))) ''5-a.jpg'' = None \<and>
   resp (handle (st (handle (run (init no_files) [PostRegister (Some ''Drill'') None (Some photo_a) False])
          (PutPhoto (Num 1) (Some photo_b) False))) (GetPhoto (Num 1))) =
     \<lparr>status = 200, body = SentFile ''image/jpeg'' [3]\<rparr>"
proof -
  have found: "map_of (inventoryItems (run (init no_files) [PostRegister (Some ''Drill'') None (Some photo_a) False])) (Num 1)
     = Some \<lparr>ID = 1, InventoryName = ''Drill'', Description = [], Photo = Some ''5-a.jpg''\<rparr>"
    by (simp add: handler_defs filename_photo_a Let_def)
  have blob: "cache (run (init no_files) [PostRegister (Some ''Drill'') None (Some photo_a) False]) ''5-a.jpg''
     = Some [1]"
    by (simp add: handler_defs filename_photo_a Let_def) (simp add: photo_a_def)
  have c: "content photo_b = [3]" by (simp add: photo_b_def)
  show ?thesis
    using found blob c
      replace_photo_effect [OF refl found refl, of "Some photo_b" False]
    by (simp add: filename_photo_b prepareItemResponse_def truthy_def photo_path_def
        show_int_def digits.simps)
qed

text \<open>
  C8. A photo replacement whose new file gets the name the item already refers to (same
  clock value, same original name) is answered with 200 and the view of the updated
  item, but the handler has unlinked the file that the middleware had just written under
  that name: the item refers to a file that is not in the directory, and
  \<open>GET /inventory/:id/photo\<close> answers 500 instead of sending the new bytes.
\<close>

theorem replace_photo_same_name_loses_upload:
  "filename photo_a = ''5-a.jpg'' \<and>
   filename photo_a' = ''5-a.jpg'' \<and>
   content photo_a' = [2] \<and>
   map_of (inventoryItems (run (init no_files) [PostRegister (Some ''Drill'') None (Some photo_a) False])) (Num 1)
     = Some \<lparr>ID = 1, InventoryName = ''Drill'', Description = [], Photo = Some ''5-a.jpg''\<rparr> \<and>
   resp (handle (run (init no_files) [PostRegister (Some ''Drill'') None (Some photo_a) False])
           (PutPhoto (Num 1) (Some photo_a') False)) =
     \<lparr>status = 200,
      body = MsgView (PhotoUpdated 1)
        (JObj [(''ID'', JNum 1), (''InventoryName'', JStr ''Drill''), (''Description'', JStr []),
               (''PhotoLink'', JStr ''/inventory/1/photo'')])\<rparr> \<and>
   map_of (inventoryItems (st (handle (run (init no_files) [PostRegister (Some ''Drill'') None (Some photo_a) False])
           (PutPhoto (Num 1) (Some photo_a') False)))) (Num 1)
     = Some \<lparr>ID = 1, InventoryName = ''Drill'', Description = [], Photo = Some ''5-a.jpg''\<rparr> \<and>
   cache (st (handle (run (init no_files) [PostRegister (Some ''Drill'') None (Some photo_a) False])
           (PutPhoto (Num 1) (Some photo_a') False))) ''5-a.jpg'' = None \<and>
   resp (handle (st (handle (run (init no_files) [PostRegister (Some ''Drill'') None (Some photo_a) False])
                       (PutPhoto (Num 1) (Some photo_a') False)))
           (GetPhoto (Num 1))) = \<lparr>status = 500, body = Error ServerError\<rparr>"
  by (simp add: handler_defs filename_photo_a filename_photo_a' Let_def photo_path_def
      show_int_def digits.simps)
    (simp add: photo_a'_def)

subsection \<open>C9: photo retrieval\<close>

text \<open>
  C9. In every state the server reaches, \<open>GET /inventory/:id/photo\<close> leaves the state as
  it is. It answers 404 exactly when there is no item under the id or the item has no
  photo reference. Otherwise it sends the bytes of the referenced file with 200 under the
  content type \<open>image/jpeg\<close>, or, when the file cannot be read, answers 500.
\<close>

theorem get_photo_outcomes:
  assumes "s = run (init dir) rs"
    and "r = handle s (GetPhoto i)"
  shows "st r = s \<and>
         (status (resp r) = 404 \<longleftrightarrow>
            (case map_of (inventoryItems s) i of None \<Rightarrow> True | Some it \<Rightarrow> Photo it = None)) \<and>
         (case map_of (inventoryItems s) i of
            None \<Rightarrow> resp r = \<lparr>status = 404, body = Error (PhotoNotFound i)\<rparr>
          | Some it \<Rightarrow>
              (case Photo it of
                 None \<Rightarrow> resp r = \<lparr>status = 404, body = Error (PhotoNotFound i)\<rparr>
               | Some name \<Rightarrow>
                   (case cache s name of
                      Some bs \<Rightarrow> resp r = \<lparr>status = 200, body = SentFile ''image/jpeg'' bs\<rparr>
                    | None \<Rightarrow> resp r = \<lparr>status = 500, body = Error ServerError\<rparr>)))"
proof (cases "map_of (inventoryItems s) i")
  case None
  with assms(2) show ?thesis by (simp add: get_photo_def)
next
  case (Some it)
  have "inv s" using assms(1) by (simp add: inv_reached)
  from inv_lookup [OF this Some] have "Photo it \<noteq> Some []" by simp
  then have "truthy (Photo it) \<longleftrightarrow> Photo it \<noteq> None"
    by (cases "Photo it") (auto simp: truthy_def)
  with Some assms(2) show ?thesis
    by (auto simp: get_photo_def split: option.splits)
qed

theorem get_photo_outcomes_witness:
  "resp (handle (run (init no_files) [PostRegister (Some ''Drill'') None (Some photo_b) False,
                                     PostRegister (Some ''Saw'') None None False])
          (GetPhoto (Num 1))) = \<lparr>status = 200, body = SentFile ''image/jpeg'' [3]\<rparr> \<and>
   resp (handle (run (init no_files) [PostRegister (Some ''Drill'') None (Some photo_b) False,
                                     PostRegister (Some ''Saw'') None None False])
          (GetPhoto (Num 2))) = \<lparr>status = 404, body = Error (PhotoNotFound (Num 2))\<rparr> \<and>
   st (handle (run (init no_files) [PostRegister (Some ''Drill'') None (Some photo_b) False,
                                   PostRegister (Some ''Saw'') None None False])
          (GetPhoto (Num 1))) =
     run (init no_files) [PostRegister (Some ''Drill'') None (Some photo_b) False,
                          PostRegister (Some ''Saw'') None None False]"
  using get_photo_outcomes [OF refl refl, of no_files
      "[PostRegister (Some ''Drill'') None (Some photo_b) False,
        PostRegister (Some ''Saw'') None None False]" "Num 1"]
  by (simp add: handler_defs filename_photo_b Let_def) (simp add: photo_b_def)

subsection \<open>C10: ids that are not numbers\<close>

text \<open>
  C10. In every state the server reaches no item is stored under \<open>NaN\<close>, so an id that
  does not parse is answered with 404 on all six routes, and on five of them, and on the
  photo replacement without a file, nothing changes (\<open>NaN_not_found\<close>). A photo
  replacement that carries a file is answered with 404 too, but the file that the
  middleware stored for the request is left in the directory: the directory is not
  unchanged.
\<close>

theorem replace_photo_NaN_keeps_upload:
  "status (resp (handle (init no_files) (PutPhoto NaN (Some photo_b) False))) = 404 \<and>
   body (resp (handle (init no_files) (PutPhoto NaN (Some photo_b) False))) = Error (ItemNotFound NaN) \<and>
   filename photo_b = ''6-my_cat.jpg'' \<and>
   cache (init no_files) ''6-my_cat.jpg'' = None \<and>
   cache (st (handle (init no_files) (PutPhoto NaN (Some photo_b) False))) ''6-my_cat.jpg''
     = Some [3]"
  by (simp add: handler_defs filename_photo_b) (simp add: photo_b_def)

end
